theory Spec2Isabelle
  imports Main "HOL-Library.AList"
begin

section \<open>Python values used by app.py\<close>

text \<open>
  A Python \<open>str\<close> is a sequence of Unicode code points, so a string is modelled as a list
  of natural numbers (one per code point) and \<open>len\<close>, indexing and slicing count code
  points as Python does. \<open>py\<close> turns an ASCII literal of the source into that form.
\<close>

type_synonym pystr = "nat list"

definition py :: "string \<Rightarrow> pystr" where
  "py s = map of_char s"

datatype py_error = IndexError | KeyError | ValueError | AttributeError

text \<open>\<open>xs[i]\<close> on a list or string: negative indices count from the end, out of range raises.\<close>

definition getitem :: "'a list \<Rightarrow> int \<Rightarrow> py_error + 'a" where
  "getitem xs i =
     (if 0 \<le> i \<and> i < int (length xs) then Inr (xs ! nat i)
      else if i < 0 \<and> 0 \<le> int (length xs) + i then Inr (xs ! nat (int (length xs) + i))
      else Inl IndexError)"

text \<open>\<open>xs.index(x)\<close>: the first position of \<open>x\<close>, \<open>ValueError\<close> when it does not occur.\<close>

fun list_index :: "'a list \<Rightarrow> 'a \<Rightarrow> py_error + int" where
  "list_index [] x = Inl ValueError"
| "list_index (y # ys) x =
     (if y = x then Inr 0
      else (case list_index ys x of Inl e \<Rightarrow> Inl e | Inr i \<Rightarrow> Inr (i + 1)))"

text \<open>
  A \<open>dict\<close> is an association list in insertion order with one pair per key:
  \<open>d[k] = v\<close> is \<open>AList.update k v d\<close> (an existing key keeps its place, a new one goes to
  the end), \<open>len(d)\<close> is the length of the list, \<open>d[k]\<close> is \<open>dict_get d k\<close>.
\<close>

type_synonym ('k, 'v) dict = "('k \<times> 'v) list"

definition dict_get :: "('k, 'v) dict \<Rightarrow> 'k \<Rightarrow> py_error + 'v" where
  "dict_get d k = (case map_of d k of None \<Rightarrow> Inl KeyError | Some v \<Rightarrow> Inr v)"

text \<open>\<open>s.startswith(p)\<close>.\<close>

definition startswith :: "pystr \<Rightarrow> pystr \<Rightarrow> bool" where
  "startswith s p \<longleftrightarrow> take (length p) s = p"

text \<open>
  \<open>s.split(sep)\<close> for a separator of one code point: the pieces between the occurrences of
  the separator, so \<open>n\<close> occurrences give \<open>n + 1\<close> pieces and the empty string gives \<open>['']\<close>.
  \<open>str_split\<close> carries the piece being read (reversed) in \<open>cur\<close>.
\<close>

fun split_from :: "nat \<Rightarrow> pystr \<Rightarrow> pystr \<Rightarrow> pystr list" where
  "split_from sep cur [] = [rev cur]"
| "split_from sep cur (c # cs) =
     (if c = sep then rev cur # split_from sep [] cs else split_from sep (c # cur) cs)"

definition str_split :: "pystr \<Rightarrow> nat \<Rightarrow> pystr list" where
  "str_split s sep = split_from sep [] s"

text \<open>
  \<open>s.replace(old, new)\<close>: every occurrence of \<open>old\<close>, found from left to right without
  overlap, is replaced by \<open>new\<close>. (With an empty \<open>old\<close> Python puts \<open>new\<close> before every code
  point and at the end.)
\<close>

fun replace_ne :: "pystr \<Rightarrow> pystr \<Rightarrow> pystr \<Rightarrow> pystr" where
  "replace_ne old new [] = []"
| "replace_ne old new (c # cs) =
     (if old \<noteq> [] \<and> take (length old) (c # cs) = old
      then new @ replace_ne old new (drop (length old) (c # cs))
      else c # replace_ne old new cs)"

definition str_replace :: "pystr \<Rightarrow> pystr \<Rightarrow> pystr \<Rightarrow> pystr" where
  "str_replace s old new =
     (if old = [] then new @ concat (map (\<lambda>c. c # new) s) else replace_ne old new s)"

text \<open>
  \<open>s.strip()\<close> removes the leading and trailing code points that Python counts as
  whitespace: U+0009..U+000D, U+001C..U+0020, U+0085, U+00A0, U+1680, U+2000..U+200A,
  U+2028, U+2029, U+202F, U+205F and U+3000.
\<close>

definition isspace :: "nat \<Rightarrow> bool" where
  "isspace c \<longleftrightarrow>
     (9 \<le> c \<and> c \<le> 13) \<or> (28 \<le> c \<and> c \<le> 32) \<or> c = 133 \<or> c = 160 \<or> c = 5760 \<or>
     (8192 \<le> c \<and> c \<le> 8202) \<or> c = 8232 \<or> c = 8233 \<or> c = 8239 \<or> c = 8287 \<or> c = 12288"

definition strip :: "pystr \<Rightarrow> pystr" where
  "strip s = rev (dropWhile isspace (rev (dropWhile isspace s)))"


section \<open>Global settings\<close>

definition TOTAL_QUESTIONS :: int where
  "TOTAL_QUESTIONS = 10"

definition difficulty_levels :: "pystr list" where
  "difficulty_levels = [py ''easy'', py ''medium'', py ''hard'']"

definition scoring :: "(pystr, int) dict" where
  "scoring = [(py ''easy'', 1), (py ''medium'', 2), (py ''hard'', 3)]"

section \<open>Helper functions\<close>

subsection \<open>adjust_difficulty\<close>

definition adjust_difficulty :: "pystr \<Rightarrow> bool \<Rightarrow> py_error + pystr" where
  "adjust_difficulty current_difficulty correct =
     (case list_index difficulty_levels current_difficulty of
        Inl e \<Rightarrow> Inl e
      | Inr index \<Rightarrow>
          if correct
          then getitem difficulty_levels (min (index + 1) (int (length difficulty_levels) - 1))
          else getitem difficulty_levels (max (index - 1) 0))"

subsection \<open>parse_response\<close>

text \<open>
  The dictionary that \<open>parse_response\<close> returns, with its keys \<open>"question"\<close>, \<open>"options"\<close>
  and \<open>"correct_answer"\<close>. The same record holds the three local variables \<open>question\<close>,
  \<open>options\<close> and \<open>correct\<close> while the lines are scanned.
\<close>

record qdata =
  question :: pystr
  options :: "(pystr, pystr) dict"
  correct_answer :: pystr

text \<open>The body of the \<open>for line in lines\<close> loop; \<open>line[0]\<close> is the only place that can raise.\<close>

definition scan_line :: "qdata \<Rightarrow> pystr \<Rightarrow> py_error + qdata" where
  "scan_line st line =
     (if startswith line (py ''Question:'') then
        Inr (st\<lparr>question := strip (str_replace line (py ''Question:'') [])\<rparr>)
      else if startswith line (py ''A)'') \<or> startswith line (py ''B)'') \<or>
              startswith line (py ''C)'') \<or> startswith line (py ''D)'') \<or>
              startswith line (py ''E)'') then
        (case getitem line 0 of
           Inl e \<Rightarrow> Inl e
         | Inr c \<Rightarrow>
             let letter = [c]; option_text = strip (drop 2 line)
             in Inr (st\<lparr>options := AList.update letter option_text (options st)\<rparr>))
      else if startswith line (py ''Correct Answer:'') then
        Inr (st\<lparr>correct_answer := strip (str_replace line (py ''Correct Answer:'') [])\<rparr>)
      else Inr st)"

fun scan_lines :: "qdata \<Rightarrow> pystr list \<Rightarrow> py_error + qdata" where
  "scan_lines st [] = Inr st"
| "scan_lines st (line # lines) =
     (case scan_line st line of Inl e \<Rightarrow> Inl e | Inr st' \<Rightarrow> scan_lines st' lines)"

definition fallback :: qdata where
  "fallback =
     \<lparr>question = py ''What is 2 + 2?'',
      options = [(py ''A'', py ''3''), (py ''B'', py ''4''), (py ''C'', py ''5''),
                 (py ''D'', py ''6''), (py ''E'', py ''7'')],
      correct_answer = py ''B''\<rparr>"

text \<open>
  \<open>response\<close> is what the text-generation pipeline returns: a list of candidates, each a
  dictionary; the parser reads \<open>response[0]["generated_text"]\<close>.
\<close>

type_synonym response = "(pystr, pystr) dict list"

definition parse_response :: "response \<Rightarrow> py_error + qdata" where
  "parse_response response =
     (case getitem response 0 of
        Inl e \<Rightarrow> Inl e
      | Inr candidate \<Rightarrow>
     (case dict_get candidate (py ''generated_text'') of
        Inl e \<Rightarrow> Inl e
      | Inr text \<Rightarrow>
     (case scan_lines \<lparr>question = [], options = [], correct_answer = []\<rparr> (str_split text 10) of
        Inl e \<Rightarrow> Inl e
      | Inr st \<Rightarrow>
          if question st = [] \<or> length (options st) < 5 \<or> correct_answer st = []
          then Inr fallback
          else Inr st)))"

subsection \<open>generate_question\<close>

text \<open>
  The language model is outside the program: \<open>model\<close> stands for the loaded pipeline, a
  function from the prompt to its response.
\<close>

definition generate_question :: "(pystr \<Rightarrow> response) \<Rightarrow> pystr \<Rightarrow> py_error + qdata" where
  "generate_question model difficulty =
     (let prompt =
        py ''Generate a GMAT-style quantitative problem with a '' @ difficulty @
        py '' difficulty level. '' @
        py ''Provide 5 answer choices labeled A) through E) and indicate the correct answer using 'Correct Answer: [letter]'.''
      in parse_response (model prompt))"


section \<open>Session state\<close>

text \<open>One row of \<open>st.session_state.questions\<close>, with the keys of the source's \<open>entry\<close>.\<close>

record entry =
  Question :: pystr
  Your_Answer :: pystr
  Correct_Answer :: pystr
  Difficulty :: pystr
  Points_Awarded :: int
  Result :: pystr

text \<open>
  \<open>st.session_state\<close>: each key the script stores is a field, \<open>None\<close> while the key is
  absent. Reading an absent key raises. The radio widget's own key \<open>user_answer_radio\<close>
  only carries the selection, which is passed to a run here as \<open>user_answer\<close>.
\<close>

record session_state =
  started :: "bool option"
  current_question :: "int option"
  score :: "int option"
  current_difficulty :: "pystr option"
  questions :: "(int, entry) dict option"
  current_question_data :: "qdata option"

datatype key =
  K_started | K_current_question | K_score | K_current_difficulty | K_questions |
  K_current_question_data

definition empty_session :: session_state where
  "empty_session =
     \<lparr>started = None, current_question = None, score = None, current_difficulty = None,
      questions = None, current_question_data = None\<rparr>"

definition attr :: "'a option \<Rightarrow> py_error + 'a" where
  "attr v = (case v of None \<Rightarrow> Inl AttributeError | Some x \<Rightarrow> Inr x)"

text \<open>The five \<open>if "..." not in st.session_state\<close> statements at the top of the script.\<close>

definition init_session :: "session_state \<Rightarrow> session_state" where
  "init_session s0 =
     (let s1 = (if started s0 = None then s0\<lparr>started := Some False\<rparr> else s0);
          s2 = (if current_question s1 = None then s1\<lparr>current_question := Some 0\<rparr> else s1);
          s3 = (if score s2 = None then s2\<lparr>score := Some 0\<rparr> else s2);
          s4 = (if current_difficulty s3 = None
                then s3\<lparr>current_difficulty := Some (py ''medium'')\<rparr> else s3);
          s5 = (if questions s4 = None then s4\<lparr>questions := Some []\<rparr> else s4)
      in s5)"

section \<open>The Streamlit script\<close>

text \<open>
  The body of \<open>if st.button("Submit Answer")\<close>. \<open>qd\<close> is the question on display
  (\<open>qdata\<close>) and \<open>user_answer\<close> the option selected in the radio widget. An exception ends
  the run; the result is then the exception only, raised where the source raises it.
\<close>

definition submit_answer :: "qdata \<Rightarrow> pystr \<Rightarrow> session_state \<Rightarrow> py_error + session_state" where
  "submit_answer qd user_answer s =
     (let correct = correct_answer qd;
          is_correct = (user_answer = correct)
      in case (if is_correct
               then (case attr (current_difficulty s) of
                       Inl e \<Rightarrow> Inl e
                     | Inr d \<Rightarrow> dict_get scoring d)
               else Inr 0) of
           Inl e \<Rightarrow> Inl e
         | Inr points \<Rightarrow>
        (case attr (score s) of Inl e \<Rightarrow> Inl e | Inr sc \<Rightarrow>
        (case attr (current_difficulty s) of Inl e \<Rightarrow> Inl e | Inr d \<Rightarrow>
        (case attr (questions s) of Inl e \<Rightarrow> Inl e | Inr qs \<Rightarrow>
        (case attr (current_question s) of Inl e \<Rightarrow> Inl e | Inr n \<Rightarrow>
        (case adjust_difficulty d is_correct of Inl e \<Rightarrow> Inl e | Inr d' \<Rightarrow>
        (case attr (current_question_data s) of Inl e \<Rightarrow> Inl e | Inr _ \<Rightarrow>
           Inr (s\<lparr>score := Some (sc + points),
                   questions :=
                     Some (AList.update (n + 1)
                             \<lparr>Question = question qd, Your_Answer = user_answer,
                              Correct_Answer = correct, Difficulty = d,
                              Points_Awarded = points,
                              Result = (if is_correct then py ''Correct''
                                        else py ''Incorrect'')\<rparr> qs),
                   current_difficulty := Some d',
                   current_question := Some (n + 1),
                   current_question_data := None\<rparr>))))))))"

text \<open>
  The loop in the body of \<open>if st.button("Restart Test")\<close>: every key present is deleted.
  The \<open>st.experimental_rerun()\<close> that follows it is part of \<open>script\<close> below.
\<close>

definition keys :: "session_state \<Rightarrow> key list" where
  "keys s =
     (if started s = None then [] else [K_started]) @
     (if current_question s = None then [] else [K_current_question]) @
     (if score s = None then [] else [K_score]) @
     (if current_difficulty s = None then [] else [K_current_difficulty]) @
     (if questions s = None then [] else [K_questions]) @
     (if current_question_data s = None then [] else [K_current_question_data])"

fun del_key :: "key \<Rightarrow> session_state \<Rightarrow> session_state" where
  "del_key K_started s = s\<lparr>started := None\<rparr>"
| "del_key K_current_question s = s\<lparr>current_question := None\<rparr>"
| "del_key K_score s = s\<lparr>score := None\<rparr>"
| "del_key K_current_difficulty s = s\<lparr>current_difficulty := None\<rparr>"
| "del_key K_questions s = s\<lparr>questions := None\<rparr>"
| "del_key K_current_question_data s = s\<lparr>current_question_data := None\<rparr>"

definition restart_test :: "session_state \<Rightarrow> session_state" where
  "restart_test s = fold del_key (keys s) s"

text \<open>
  One execution of the script from top to bottom. \<open>click\<close> is the button pressed in the
  browser (a button that is not drawn in this run cannot fire), \<open>user_answer\<close> the radio
  selection (in the source one of the option keys; any string is accepted here),
  \<open>model\<close> the pipeline as it answers during this run. \<open>st.experimental_rerun()\<close>
  stops the run and asks for another one: the outcome \<open>Rerun\<close>. Drawing calls
  (\<open>st.write\<close>, \<open>st.radio\<close>, \<open>plot_score\<close>, the data frame) change no state and are left out.
\<close>

datatype click = NoClick | StartTest | SubmitAnswer | RestartTest

datatype outcome = Finished session_state | Rerun session_state

fun state_of :: "outcome \<Rightarrow> session_state" where
  "state_of (Finished s) = s"
| "state_of (Rerun s) = s"

definition test_in_progress ::
    "(pystr \<Rightarrow> response) \<Rightarrow> pystr \<Rightarrow> click \<Rightarrow> session_state \<Rightarrow> py_error + outcome" where
  "test_in_progress model user_answer click s =
     (case (case current_question_data s of
              Some qd \<Rightarrow> Inr (s, qd)
            | None \<Rightarrow>
                (case attr (current_difficulty s) of
                   Inl e \<Rightarrow> Inl e
                 | Inr d \<Rightarrow>
                     (case generate_question model d of
                        Inl e \<Rightarrow> Inl e
                      | Inr qd \<Rightarrow> Inr (s\<lparr>current_question_data := Some qd\<rparr>, qd)))) of
        Inl e \<Rightarrow> Inl e
      | Inr (s1, qdata) \<Rightarrow>
          if click = SubmitAnswer
          then (case submit_answer qdata user_answer s1 of
                  Inl e \<Rightarrow> Inl e
                | Inr s2 \<Rightarrow> Inr (Rerun s2))
          else Inr (Finished s1))"

definition script ::
    "(pystr \<Rightarrow> response) \<Rightarrow> pystr \<Rightarrow> click \<Rightarrow> session_state \<Rightarrow> py_error + outcome" where
  "script model user_answer click s0 =
     (let s = init_session s0
      in case attr (started s) of
           Inl e \<Rightarrow> Inl e
         | Inr is_started \<Rightarrow>
             if \<not> is_started \<and> click = StartTest then Inr (Rerun (s\<lparr>started := Some True\<rparr>))
             else if is_started then
               (case attr (current_question s) of
                  Inl e \<Rightarrow> Inl e
                | Inr n \<Rightarrow>
                    if n < TOTAL_QUESTIONS then test_in_progress model user_answer click s
                    else if click = RestartTest then Inr (Rerun (restart_test s))
                    else Inr (Finished s))
             else Inr (Finished s))"

text \<open>
  One user action: the run it triggers and, when that run asked for it, the rerun, in
  which no button is pressed. \<open>model'\<close> is the pipeline as it answers during the rerun.
\<close>

definition app ::
    "(pystr \<Rightarrow> response) \<Rightarrow> (pystr \<Rightarrow> response) \<Rightarrow> pystr \<Rightarrow> click \<Rightarrow> session_state \<Rightarrow>
     py_error + session_state" where
  "app model model' user_answer click s =
     (case script model user_answer click s of
        Inl e \<Rightarrow> Inl e
      | Inr (Finished s') \<Rightarrow> Inr s'
      | Inr (Rerun s') \<Rightarrow>
          (case script model' user_answer NoClick s' of
             Inl e \<Rightarrow> Inl e
           | Inr out \<Rightarrow> Inr (state_of out)))"

text \<open>
  What the claims about whole sessions assume of the pipeline: for every prompt it
  returns at least one candidate, and the first candidate has a \<open>generated_text\<close>.
\<close>

definition responds :: "(pystr \<Rightarrow> response) \<Rightarrow> bool" where
  "responds model \<longleftrightarrow>
     (\<forall>prompt. \<exists>candidate others text.
        model prompt = candidate # others
        \<and> map_of candidate (py ''generated_text'') = Some text)"

text \<open>
  A test in which every answer is correct: at each step the user selects the correct
  letter of the question on display and presses Submit Answer. Each element of the list
  is the pipeline as it answers during that step. With no question on display there is
  nothing to submit and the state stays as it is.
\<close>

fun answer_correctly :: "(pystr \<Rightarrow> response) list \<Rightarrow> session_state \<Rightarrow> py_error + session_state" where
  "answer_correctly [] s = Inr s"
| "answer_correctly (model # models) s =
     (case current_question_data s of
        None \<Rightarrow> Inr s
      | Some qdata \<Rightarrow>
          (case app model model (correct_answer qdata) SubmitAnswer s of
             Inl e \<Rightarrow> Inl e
           | Inr s' \<Rightarrow> answer_correctly models s'))"

section \<open>Properties of the difficulty ladder\<close>

lemma list_index_levels:
  "list_index difficulty_levels (py ''easy'') = Inr 0"
  "list_index difficulty_levels (py ''medium'') = Inr 1"
  "list_index difficulty_levels (py ''hard'') = Inr 2"
  by (simp_all add: difficulty_levels_def py_def)

lemma adjust_difficulty_table:
  "adjust_difficulty (py ''easy'') True = Inr (py ''medium'')"
  "adjust_difficulty (py ''medium'') True = Inr (py ''hard'')"
  "adjust_difficulty (py ''hard'') True = Inr (py ''hard'')"
  "adjust_difficulty (py ''easy'') False = Inr (py ''easy'')"
  "adjust_difficulty (py ''medium'') False = Inr (py ''easy'')"
  "adjust_difficulty (py ''hard'') False = Inr (py ''medium'')"
  by (simp_all add: adjust_difficulty_def list_index_levels getitem_def)
     (simp_all add: difficulty_levels_def)

lemma adjust_difficulty_up:
  "i < 3 \<Longrightarrow> adjust_difficulty (difficulty_levels ! i) True
               = Inr (difficulty_levels ! min (i + 1) 2)"
proof -
  assume "i < 3"
  then consider "i = 0" | "i = Suc 0" | "i = 2" by arith
  then show ?thesis
    by cases (simp_all add: difficulty_levels_def adjust_difficulty_table)
qed

lemma adjust_difficulty_down:
  "i < 3 \<Longrightarrow> adjust_difficulty (difficulty_levels ! i) False
               = Inr (difficulty_levels ! (i - 1))"
proof -
  assume "i < 3"
  then consider "i = 0" | "i = Suc 0" | "i = 2" by arith
  then show ?thesis
    by cases (simp_all add: difficulty_levels_def adjust_difficulty_table)
qed

text \<open>
  C2: for every difficulty \<open>d\<close> among easy, medium and hard and every \<open>c\<close>,
  \<open>adjust_difficulty d c\<close> returns (it does not raise) one of easy, medium and hard; a
  correct answer moves one position up the ladder \<open>difficulty_levels\<close>, stopping at the
  last position, and an incorrect answer moves one position down, stopping at the first
  (subtraction on \<open>nat\<close> stops at 0). In particular hard stays hard on a correct answer
  and easy stays easy on an incorrect one.
\<close>

theorem adjust_difficulty_ladder:
  "(d \<in> {py ''easy'', py ''medium'', py ''hard''} \<longrightarrow>
      (\<exists>d'. adjust_difficulty d c = Inr d' \<and> d' \<in> {py ''easy'', py ''medium'', py ''hard''}))
   \<and> (\<forall>i<3. adjust_difficulty (difficulty_levels ! i) True
                = Inr (difficulty_levels ! min (i + 1) 2))
   \<and> (\<forall>i<3. adjust_difficulty (difficulty_levels ! i) False
                = Inr (difficulty_levels ! (i - 1)))
   \<and> adjust_difficulty (py ''hard'') True = Inr (py ''hard'')
   \<and> adjust_difficulty (py ''easy'') False = Inr (py ''easy'')"
proof -
  have "\<exists>d'. adjust_difficulty d c = Inr d' \<and> d' \<in> {py ''easy'', py ''medium'', py ''hard''}"
    if "d \<in> {py ''easy'', py ''medium'', py ''hard''}"
    using that by (cases c) (auto simp: adjust_difficulty_table)
  with adjust_difficulty_up adjust_difficulty_down adjust_difficulty_table(3,4)
  show ?thesis by blast
qed

theorem adjust_difficulty_ladder_witness:
  "py ''medium'' \<in> {py ''easy'', py ''medium'', py ''hard''}
   \<and> (1::nat) < 3
   \<and> (\<exists>d'. adjust_difficulty (py ''medium'') True = Inr d'
             \<and> d' \<in> {py ''easy'', py ''medium'', py ''hard''})
   \<and> adjust_difficulty (difficulty_levels ! 1) True = Inr (difficulty_levels ! min (1 + 1) 2)
   \<and> adjust_difficulty (difficulty_levels ! 1) False = Inr (difficulty_levels ! (1 - 1))"
proof -
  note t = adjust_difficulty_ladder [of "py ''medium''" True]
  have m: "py ''medium'' \<in> {py ''easy'', py ''medium'', py ''hard''}"
    by simp
  have l: "(1::nat) < 3"
    by simp
  from t m have a: "\<exists>d'. adjust_difficulty (py ''medium'') True = Inr d'
             \<and> d' \<in> {py ''easy'', py ''medium'', py ''hard''}"
    by blast
  from t have "\<forall>i<3. adjust_difficulty (difficulty_levels ! i) True
                = Inr (difficulty_levels ! min (i + 1) 2)"
    by blast
  with l have b: "adjust_difficulty (difficulty_levels ! 1) True
                = Inr (difficulty_levels ! min (1 + 1) 2)"
    by blast
  from t have "\<forall>i<3. adjust_difficulty (difficulty_levels ! i) False
                = Inr (difficulty_levels ! (i - 1))"
    by blast
  with l have c: "adjust_difficulty (difficulty_levels ! 1) False
                = Inr (difficulty_levels ! (1 - 1))"
    by blast
  from m l a b c show ?thesis
    by blast
qed

section \<open>Properties of the parser\<close>

lemma startswith_Nil: "startswith s []"
  by (simp add: startswith_def)

lemma startswith_Cons: "startswith s (a # p) \<longleftrightarrow> (\<exists>r. s = a # r \<and> startswith r p)"
  by (cases s) (auto simp: startswith_def)

lemma markers:
  "py ''Question:'' = [81, 117, 101, 115, 116, 105, 111, 110, 58]"
  "py ''Correct Answer:'' = [67, 111, 114, 114, 101, 99, 116, 32, 65, 110, 115, 119, 101, 114, 58]"
  "py ''A)'' = [65, 41]" "py ''B)'' = [66, 41]" "py ''C)'' = [67, 41]"
  "py ''D)'' = [68, 41]" "py ''E)'' = [69, 41]"
  "py ''A'' = [65]" "py ''B'' = [66]" "py ''C'' = [67]" "py ''D'' = [68]" "py ''E'' = [69]"
  by (simp_all add: py_def)

lemmas ev = py_def str_split_def str_replace_def strip_def isspace_def startswith_def
  scan_line_def getitem_def parse_response_def dict_get_def

lemma scan_line_option:
  assumes "L \<in> {py ''A'', py ''B'', py ''C'', py ''D'', py ''E''}"
    and "startswith line (L @ py '')'')"
  shows "scan_line st line =
           Inr (st\<lparr>options := AList.update L (strip (drop 2 line)) (options st)\<rparr>)"
proof -
  from assms obtain c r where l: "L = [c]" "line = c # 41 # r" "c \<in> {65, 66, 67, 68, 69}"
    by (auto simp: markers py_def startswith_Cons)
  then show ?thesis
    by (auto simp: scan_line_def markers startswith_Cons startswith_Nil getitem_def)
qed

lemma scan_line_cases:
  "scan_line st line = Inr (st\<lparr>question := strip (str_replace line (py ''Question:'') [])\<rparr>)
   \<or> (\<exists>L \<in> {py ''A'', py ''B'', py ''C'', py ''D'', py ''E''}.
         startswith line (L @ py '')'') \<and>
         scan_line st line =
           Inr (st\<lparr>options := AList.update L (strip (drop 2 line)) (options st)\<rparr>))
   \<or> scan_line st line
       = Inr (st\<lparr>correct_answer := strip (str_replace line (py ''Correct Answer:'') [])\<rparr>)
   \<or> scan_line st line = Inr st"
proof (cases "startswith line (py ''Question:'')")
  case True
  then show ?thesis by (simp add: scan_line_def)
next
  case nq: False
  show ?thesis
  proof (cases "\<exists>L \<in> {py ''A'', py ''B'', py ''C'', py ''D'', py ''E''}. startswith line (L @ py '')'')")
    case True
    then obtain L where "L \<in> {py ''A'', py ''B'', py ''C'', py ''D'', py ''E''}"
      "startswith line (L @ py '')'')" by blast
    with scan_line_option [of L line st] show ?thesis by blast
  next
    case False
    then have "\<not> (startswith line (py ''A)'') \<or> startswith line (py ''B)'') \<or>
              startswith line (py ''C)'') \<or> startswith line (py ''D)'') \<or>
              startswith line (py ''E)''))"
      by (simp add: py_def)
    with nq show ?thesis by (simp add: scan_line_def)
  qed
qed


lemma scan_line_keys:
  "\<exists>st'. scan_line st line = Inr st'
     \<and> fst ` set (options st') \<subseteq> fst ` set (options st) \<union> {py ''A'', py ''B'', py ''C'', py ''D'', py ''E''}
     \<and> (distinct (map fst (options st)) \<longrightarrow> distinct (map fst (options st')))"
proof -
  consider
    (q) "scan_line st line = Inr (st\<lparr>question := strip (str_replace line (py ''Question:'') [])\<rparr>)"
  | (opt) L where "L \<in> {py ''A'', py ''B'', py ''C'', py ''D'', py ''E''}"
      "scan_line st line = Inr (st\<lparr>options := AList.update L (strip (drop 2 line)) (options st)\<rparr>)"
  | (c) "scan_line st line
       = Inr (st\<lparr>correct_answer := strip (str_replace line (py ''Correct Answer:'') [])\<rparr>)"
  | (n) "scan_line st line = Inr st"
    using scan_line_cases [of st line] by blast
  then show ?thesis
  proof cases
    case opt
    have "fst ` set (AList.update L (strip (drop 2 line)) (options st))
          \<subseteq> fst ` set (options st) \<union> {py ''A'', py ''B'', py ''C'', py ''D'', py ''E''}"
      using opt(1) unfolding AList.dom_update by blast
    with opt(2) show ?thesis
      by (simp add: AList.distinct_update)
  qed (simp_all, blast+)
qed

lemma scan_lines_keys:
  "\<exists>st'. scan_lines st lines = Inr st'
     \<and> fst ` set (options st') \<subseteq> fst ` set (options st) \<union> {py ''A'', py ''B'', py ''C'', py ''D'', py ''E''}
     \<and> (distinct (map fst (options st)) \<longrightarrow> distinct (map fst (options st')))"
proof (induction lines arbitrary: st)
  case Nil
  then show ?case by (simp, blast)
next
  case (Cons line lines)
  from scan_line_keys [of st line] obtain st1 where
    1: "scan_line st line = Inr st1"
    "fst ` set (options st1) \<subseteq> fst ` set (options st) \<union> {py ''A'', py ''B'', py ''C'', py ''D'', py ''E''}"
    "distinct (map fst (options st)) \<longrightarrow> distinct (map fst (options st1))"
    by blast
  from Cons.IH [of st1] obtain st2 where
    2: "scan_lines st1 lines = Inr st2"
    "fst ` set (options st2) \<subseteq> fst ` set (options st1) \<union> {py ''A'', py ''B'', py ''C'', py ''D'', py ''E''}"
    "distinct (map fst (options st1)) \<longrightarrow> distinct (map fst (options st2))"
    by blast
  from 1 2 have "scan_lines st (line # lines) = Inr st2" by simp
  moreover from 1 2 have "fst ` set (options st2) \<subseteq> fst ` set (options st) \<union> {py ''A'', py ''B'', py ''C'', py ''D'', py ''E''}"
    by blast
  moreover from 1 2 have "distinct (map fst (options st)) \<longrightarrow> distinct (map fst (options st2))"
    by blast
  ultimately show ?case by blast
qed

lemma five_keys:
  assumes "fst ` set d \<subseteq> {py ''A'', py ''B'', py ''C'', py ''D'', py ''E''}"
    and "distinct (map fst d)" and "5 \<le> length d"
  shows "length d = 5 \<and> fst ` set d = {py ''A'', py ''B'', py ''C'', py ''D'', py ''E''}"
proof -
  let ?S = "{py ''A'', py ''B'', py ''C'', py ''D'', py ''E''}"
  have c5: "card ?S = 5" by (simp add: markers)
  have "card (fst ` set d) = length d"
    using assms(2) distinct_card [of "map fst d"] by simp
  moreover have "card (fst ` set d) \<le> card ?S"
    using assms(1) by (intro card_mono) simp_all
  ultimately have len: "length d = 5" and "card (fst ` set d) = card ?S"
    using assms(3) c5 by simp_all
  then have "fst ` set d = ?S"
    using assms(1) by (intro card_seteq) simp_all
  with len show ?thesis by simp
qed

lemma scan_line_no_correct:
  "\<not> startswith line (py ''Correct Answer:'') \<Longrightarrow>
   \<exists>st'. scan_line st line = Inr st' \<and> correct_answer st' = correct_answer st"
  using scan_line_keys [of st line]
  by (auto simp: scan_line_def Let_def split: if_splits sum.splits)

lemma scan_lines_no_correct:
  "\<forall>line \<in> set lines. \<not> startswith line (py ''Correct Answer:'') \<Longrightarrow>
   \<exists>st'. scan_lines st lines = Inr st' \<and> correct_answer st' = correct_answer st"
proof (induction lines arbitrary: st)
  case Nil
  then show ?case by simp
next
  case (Cons line lines)
  then obtain st1 where 1: "scan_line st line = Inr st1" "correct_answer st1 = correct_answer st"
    using scan_line_no_correct [of line st] by auto
  from Cons obtain st2 where "scan_lines st1 lines = Inr st2" "correct_answer st2 = correct_answer st1"
    by fastforce
  with 1 show ?case by simp
qed

lemma parse_response_text:
  assumes "map_of candidate (py ''generated_text'') = Some text"
  shows "parse_response (candidate # others) =
     (case scan_lines \<lparr>question = [], options = [], correct_answer = []\<rparr> (str_split text 10) of
        Inl e \<Rightarrow> Inl e
      | Inr st \<Rightarrow>
          if question st = [] \<or> length (options st) < 5 \<or> correct_answer st = []
          then Inr fallback
          else Inr st)"
  using assms by (simp add: parse_response_def getitem_def dict_get_def)

text \<open>
  C3: for every input text (the \<open>generated_text\<close> of the first candidate), the lines are
  scanned without an exception, and the parser returns the scanned result exactly when
  its prompt is non-empty, it holds at least 5 options and its correct letter is
  non-empty; otherwise it returns the fixed question with prompt \<open>What is 2 + 2?\<close>,
  options A to E equal to 3, 4, 5, 6, 7 and correct letter B. In particular a text none of
  whose lines starts with \<open>Correct Answer:\<close> gives that fixed question.
\<close>

theorem parse_response_validation:
  assumes "map_of candidate (py ''generated_text'') = Some text"
  shows "\<exists>st. scan_lines \<lparr>question = [], options = [], correct_answer = []\<rparr> (str_split text 10)
               = Inr st
     \<and> parse_response (candidate # others)
         = Inr (if question st \<noteq> [] \<and> 5 \<le> length (options st) \<and> correct_answer st \<noteq> []
                then st
                else \<lparr>question = py ''What is 2 + 2?'',
                      options = [(py ''A'', py ''3''), (py ''B'', py ''4''), (py ''C'', py ''5''),
                                 (py ''D'', py ''6''), (py ''E'', py ''7'')],
                      correct_answer = py ''B''\<rparr>)
     \<and> ((\<forall>line \<in> set (str_split text 10). \<not> startswith line (py ''Correct Answer:''))
         \<longrightarrow> parse_response (candidate # others)
             = Inr \<lparr>question = py ''What is 2 + 2?'',
                    options = [(py ''A'', py ''3''), (py ''B'', py ''4''), (py ''C'', py ''5''),
                               (py ''D'', py ''6''), (py ''E'', py ''7'')],
                    correct_answer = py ''B''\<rparr>)"
proof -
  let ?st0 = "\<lparr>question = [], options = [], correct_answer = []\<rparr>"
  obtain st where st: "scan_lines ?st0 (str_split text 10) = Inr st"
    using scan_lines_keys [of ?st0 "str_split text 10"] by blast
  have p: "parse_response (candidate # others)
         = Inr (if question st \<noteq> [] \<and> 5 \<le> length (options st) \<and> correct_answer st \<noteq> []
                then st else fallback)"
    using st by (simp add: parse_response_text [OF assms] not_less)
  have "correct_answer st = []"
    if "\<forall>line \<in> set (str_split text 10). \<not> startswith line (py ''Correct Answer:'')"
    using scan_lines_no_correct [OF that, of ?st0] st by simp
  with st p show ?thesis
    by (auto simp: fallback_def)
qed

theorem parse_response_validation_witness:
  "map_of [(py ''generated_text'',
            py ''Question: 1+1?'' @ [10] @ py ''A) 1'' @ [10] @ py ''B) 2'' @ [10] @ py ''C) 3''
              @ [10] @ py ''D) 4'' @ [10] @ py ''E) 5'')] (py ''generated_text'')
     = Some (py ''Question: 1+1?'' @ [10] @ py ''A) 1'' @ [10] @ py ''B) 2'' @ [10] @ py ''C) 3''
              @ [10] @ py ''D) 4'' @ [10] @ py ''E) 5'')
   \<and> str_split (py ''Question: 1+1?'' @ [10] @ py ''A) 1'' @ [10] @ py ''B) 2''
              @ [10] @ py ''C) 3'' @ [10] @ py ''D) 4'' @ [10] @ py ''E) 5'') 10
       = [py ''Question: 1+1?'', py ''A) 1'', py ''B) 2'', py ''C) 3'', py ''D) 4'', py ''E) 5'']
   \<and> parse_response [[(py ''generated_text'',
            py ''Question: 1+1?'' @ [10] @ py ''A) 1'' @ [10] @ py ''B) 2'' @ [10] @ py ''C) 3''
              @ [10] @ py ''D) 4'' @ [10] @ py ''E) 5'')]]
       = Inr \<lparr>question = py ''What is 2 + 2?'',
              options = [(py ''A'', py ''3''), (py ''B'', py ''4''), (py ''C'', py ''5''),
                         (py ''D'', py ''6''), (py ''E'', py ''7'')],
              correct_answer = py ''B''\<rparr>"
proof -
  let ?text = "py ''Question: 1+1?'' @ [10] @ py ''A) 1'' @ [10] @ py ''B) 2'' @ [10] @ py ''C) 3''
              @ [10] @ py ''D) 4'' @ [10] @ py ''E) 5''"
  have h: "map_of [(py ''generated_text'', ?text)] (py ''generated_text'') = Some ?text"
    by simp
  have l: "str_split ?text 10
       = [py ''Question: 1+1?'', py ''A) 1'', py ''B) 2'', py ''C) 3'', py ''D) 4'', py ''E) 5'']"
    by (simp add: py_def str_split_def)
  have n: "\<forall>line \<in> set (str_split ?text 10). \<not> startswith line (py ''Correct Answer:'')"
    unfolding l by (simp add: py_def startswith_def)
  from parse_response_validation [OF h, of "[]"] n h l show ?thesis
    by blast
qed

text \<open>
  C7: for every input text the parser returns a question and raises nothing: the result
  is the fallback question or a question that passed the validation (non-empty prompt,
  at least 5 options, non-empty correct letter).
\<close>

theorem parse_response_total:
  assumes "map_of candidate (py ''generated_text'') = Some text"
  shows "\<exists>q. parse_response (candidate # others) = Inr q
     \<and> (q = fallback
        \<or> (question q \<noteq> [] \<and> 5 \<le> length (options q) \<and> correct_answer q \<noteq> []))"
proof -
  let ?st0 = "\<lparr>question = [], options = [], correct_answer = []\<rparr>"
  obtain st where st: "scan_lines ?st0 (str_split text 10) = Inr st"
    using scan_lines_keys [of ?st0 "str_split text 10"] by blast
  then show ?thesis
    by (simp add: parse_response_text [OF assms] not_less)
qed

theorem parse_response_total_witness:
  "map_of [(py ''generated_text'', py ''no question here'')] (py ''generated_text'')
     = Some (py ''no question here'')
   \<and> parse_response [[(py ''generated_text'', py ''no question here'')]] = Inr fallback"
proof -
  have h: "map_of [(py ''generated_text'', py ''no question here'')] (py ''generated_text'')
     = Some (py ''no question here'')"
    by simp
  have e: "parse_response [[(py ''generated_text'', py ''no question here'')]] = Inr fallback"
    using parse_response_total [OF h, of "[]"] by (simp add: ev)
  from h e show ?thesis
    by blast
qed

text \<open>
  C10: for every input text on which the parser returns a question other than the
  fallback, the options of that question have exactly 5 entries and their keys are
  exactly A, B, C, D and E.
\<close>

theorem parse_response_five_options:
  assumes "map_of candidate (py ''generated_text'') = Some text"
    and "parse_response (candidate # others) = Inr q"
    and "q \<noteq> fallback"
  shows "length (options q) = 5
     \<and> fst ` set (options q) = {py ''A'', py ''B'', py ''C'', py ''D'', py ''E''}"
proof -
  let ?st0 = "\<lparr>question = [], options = [], correct_answer = []\<rparr>"
  obtain st where st: "scan_lines ?st0 (str_split text 10) = Inr st"
    and k: "fst ` set (options st) \<subseteq> fst ` set (options ?st0) \<union> {py ''A'', py ''B'', py ''C'', py ''D'', py ''E''}"
    and d: "distinct (map fst (options ?st0)) \<longrightarrow> distinct (map fst (options st))"
    using scan_lines_keys [of ?st0 "str_split text 10"] by blast
  from assms st have "q = st" and "5 \<le> length (options st)"
    by (auto simp: parse_response_text [OF assms(1)] split: if_splits)
  with k d five_keys [of "options st"] show ?thesis by simp
qed


theorem parse_response_five_options_witness:
  "map_of [(py ''generated_text'',
            py ''Question: 1+1?'' @ [10] @ py ''A) 1'' @ [10] @ py ''B) 2'' @ [10] @ py ''C) 3''
              @ [10] @ py ''D) 4'' @ [10] @ py ''E) 5'' @ [10] @ py ''Correct Answer: B'')]
      (py ''generated_text'')
     = Some (py ''Question: 1+1?'' @ [10] @ py ''A) 1'' @ [10] @ py ''B) 2'' @ [10] @ py ''C) 3''
              @ [10] @ py ''D) 4'' @ [10] @ py ''E) 5'' @ [10] @ py ''Correct Answer: B'')
   \<and> parse_response [[(py ''generated_text'',
            py ''Question: 1+1?'' @ [10] @ py ''A) 1'' @ [10] @ py ''B) 2'' @ [10] @ py ''C) 3''
              @ [10] @ py ''D) 4'' @ [10] @ py ''E) 5'' @ [10] @ py ''Correct Answer: B'')]]
       = Inr \<lparr>question = py ''1+1?'',
              options = [(py ''A'', py ''1''), (py ''B'', py ''2''), (py ''C'', py ''3''),
                         (py ''D'', py ''4''), (py ''E'', py ''5'')],
              correct_answer = py ''B''\<rparr>
   \<and> \<lparr>question = py ''1+1?'',
       options = [(py ''A'', py ''1''), (py ''B'', py ''2''), (py ''C'', py ''3''),
                  (py ''D'', py ''4''), (py ''E'', py ''5'')],
       correct_answer = py ''B''\<rparr> \<noteq> fallback
   \<and> length (options \<lparr>question = py ''1+1?'',
              options = [(py ''A'', py ''1''), (py ''B'', py ''2''), (py ''C'', py ''3''),
                         (py ''D'', py ''4''), (py ''E'', py ''5'')],
              correct_answer = py ''B''\<rparr>) = 5
   \<and> fst ` set (options \<lparr>question = py ''1+1?'',
              options = [(py ''A'', py ''1''), (py ''B'', py ''2''), (py ''C'', py ''3''),
                         (py ''D'', py ''4''), (py ''E'', py ''5'')],
              correct_answer = py ''B''\<rparr>) = {py ''A'', py ''B'', py ''C'', py ''D'', py ''E''}"
proof -
  let ?text = "py ''Question: 1+1?'' @ [10] @ py ''A) 1'' @ [10] @ py ''B) 2'' @ [10] @ py ''C) 3''
              @ [10] @ py ''D) 4'' @ [10] @ py ''E) 5'' @ [10] @ py ''Correct Answer: B''"
  let ?q = "\<lparr>question = py ''1+1?'',
       options = [(py ''A'', py ''1''), (py ''B'', py ''2''), (py ''C'', py ''3''),
                  (py ''D'', py ''4''), (py ''E'', py ''5'')],
       correct_answer = py ''B''\<rparr>"
  have h: "map_of [(py ''generated_text'', ?text)] (py ''generated_text'') = Some ?text"
    by simp
  have p: "parse_response [[(py ''generated_text'', ?text)]] = Inr ?q"
    by (simp add: ev)
  have n: "?q \<noteq> fallback"
    by (simp add: fallback_def py_def)
  from parse_response_five_options [OF h p n] h p n show ?thesis
    by blast
qed


lemma startswith_letter_unique:
  assumes "L \<in> {py ''A'', py ''B'', py ''C'', py ''D'', py ''E''}"
    and "L' \<in> {py ''A'', py ''B'', py ''C'', py ''D'', py ''E''}"
    and "startswith line (L @ py '')'')" and "startswith line (L' @ py '')'')"
  shows "L = L'"
  using assms by (auto simp: markers py_def startswith_Cons)

lemma scan_line_lookup:
  assumes "L \<in> {py ''A'', py ''B'', py ''C'', py ''D'', py ''E''}"
  shows "\<exists>st'. scan_line st line = Inr st'
     \<and> map_of (options st') L =
         (if startswith line (L @ py '')'') then Some (strip (drop 2 line))
          else map_of (options st) L)"
proof (cases "startswith line (L @ py '')'')")
  case True
  with scan_line_option [OF assms this, of st] show ?thesis
    by (simp add: AList.update_conv')
next
  case False
  consider
    (q) "scan_line st line = Inr (st\<lparr>question := strip (str_replace line (py ''Question:'') [])\<rparr>)"
  | (opt) L' where "L' \<in> {py ''A'', py ''B'', py ''C'', py ''D'', py ''E''}"
      "startswith line (L' @ py '')'')"
      "scan_line st line = Inr (st\<lparr>options := AList.update L' (strip (drop 2 line)) (options st)\<rparr>)"
  | (c) "scan_line st line
       = Inr (st\<lparr>correct_answer := strip (str_replace line (py ''Correct Answer:'') [])\<rparr>)"
  | (n) "scan_line st line = Inr st"
    using scan_line_cases [of st line] by blast
  then show ?thesis
  proof cases
    case opt
    with False have "L' \<noteq> L" by blast
    with opt(3) False show ?thesis
      by (simp add: AList.update_conv')
  qed (simp_all add: False)
qed

lemma scan_lines_lookup:
  assumes "L \<in> {py ''A'', py ''B'', py ''C'', py ''D'', py ''E''}"
  shows "\<exists>st'. scan_lines st lines = Inr st'
     \<and> map_of (options st') L =
         (if filter (\<lambda>line. startswith line (L @ py '')'')) lines = [] then map_of (options st) L
          else Some (strip (drop 2 (last (filter (\<lambda>line. startswith line (L @ py '')'')) lines)))))"
proof (induction lines arbitrary: st)
  case Nil
  then show ?case by simp
next
  case (Cons line lines)
  obtain st1 where 1: "scan_line st line = Inr st1"
    "map_of (options st1) L =
         (if startswith line (L @ py '')'') then Some (strip (drop 2 line))
          else map_of (options st) L)"
    using scan_line_lookup [OF assms, of st line] by blast
  obtain st2 where 2: "scan_lines st1 lines = Inr st2"
    "map_of (options st2) L =
         (if filter (\<lambda>line. startswith line (L @ py '')'')) lines = [] then map_of (options st1) L
          else Some (strip (drop 2 (last (filter (\<lambda>line. startswith line (L @ py '')'')) lines)))))"
    using Cons.IH [of st1] by blast
  from 1 2 show ?case by simp
qed

lemma scan_line_ignored:
  assumes "\<not> startswith line (py ''Question:'')"
    and "\<not> startswith line (py ''A)'')" and "\<not> startswith line (py ''B)'')"
    and "\<not> startswith line (py ''C)'')" and "\<not> startswith line (py ''D)'')"
    and "\<not> startswith line (py ''E)'')" and "\<not> startswith line (py ''Correct Answer:'')"
  shows "scan_line st line = Inr st"
  using assms by (simp add: scan_line_def)

text \<open>
  C8: while the lines are scanned, the text captured for an option letter among A to E
  is the one of the last line that starts with that letter's marker: when at least one
  such line exists (so also when there are two or more), the option stored under the
  letter after the scan is the text of the last of them after the 2-character marker,
  trimmed. A line that starts with none of the markers \<open>Question:\<close>, \<open>A)\<close> to \<open>E)\<close> and
  \<open>Correct Answer:\<close> leaves prompt, options and correct letter as they were.
\<close>

theorem scan_last_wins:
  "(L \<in> {py ''A'', py ''B'', py ''C'', py ''D'', py ''E''}
      \<and> (\<exists>line \<in> set lines. startswith line (L @ py '')''))
    \<longrightarrow> (\<exists>st'. scan_lines st lines = Inr st'
          \<and> map_of (options st') L
              = Some (strip (drop 2 (last (filter (\<lambda>line. startswith line (L @ py '')''))
                                                 lines))))))
   \<and> (\<not> startswith l (py ''Question:'')
      \<and> \<not> startswith l (py ''A)'') \<and> \<not> startswith l (py ''B)'')
      \<and> \<not> startswith l (py ''C)'') \<and> \<not> startswith l (py ''D)'')
      \<and> \<not> startswith l (py ''E)'') \<and> \<not> startswith l (py ''Correct Answer:'')
    \<longrightarrow> scan_line st l = Inr st)"
proof (intro conjI impI)
  assume a: "L \<in> {py ''A'', py ''B'', py ''C'', py ''D'', py ''E''}
      \<and> (\<exists>line \<in> set lines. startswith line (L @ py '')''))"
  then have "filter (\<lambda>line. startswith line (L @ py '')'')) lines \<noteq> []"
    by (simp add: filter_empty_conv)
  with scan_lines_lookup [of L st lines] a
  show "\<exists>st'. scan_lines st lines = Inr st'
          \<and> map_of (options st') L
              = Some (strip (drop 2 (last (filter (\<lambda>line. startswith line (L @ py '')''))
                                                 lines))))"
    by auto
next
  assume "\<not> startswith l (py ''Question:'')
      \<and> \<not> startswith l (py ''A)'') \<and> \<not> startswith l (py ''B)'')
      \<and> \<not> startswith l (py ''C)'') \<and> \<not> startswith l (py ''D)'')
      \<and> \<not> startswith l (py ''E)'') \<and> \<not> startswith l (py ''Correct Answer:'')"
  then show "scan_line st l = Inr st"
    by (simp add: scan_line_ignored)
qed

theorem scan_last_wins_witness:
  "py ''A'' \<in> {py ''A'', py ''B'', py ''C'', py ''D'', py ''E''}
   \<and> startswith (py ''A) 2'') (py ''A'' @ py '')'')
   \<and> (\<exists>st'. scan_lines \<lparr>question = [], options = [], correct_answer = []\<rparr>
                [py ''A) 1'', py ''B) 7'', py ''A) 2''] = Inr st'
          \<and> map_of (options st') (py ''A'') = Some (py ''2''))
   \<and> \<not> startswith (py ''F) 9'') (py ''Question:'')
   \<and> \<not> startswith (py ''F) 9'') (py ''A)'') \<and> \<not> startswith (py ''F) 9'') (py ''B)'')
   \<and> \<not> startswith (py ''F) 9'') (py ''C)'') \<and> \<not> startswith (py ''F) 9'') (py ''D)'')
   \<and> \<not> startswith (py ''F) 9'') (py ''E)'') \<and> \<not> startswith (py ''F) 9'') (py ''Correct Answer:'')
   \<and> scan_line \<lparr>question = [], options = [], correct_answer = []\<rparr> (py ''F) 9'')
       = Inr \<lparr>question = [], options = [], correct_answer = []\<rparr>"
proof -
  let ?lines = "[py ''A) 1'', py ''B) 7'', py ''A) 2'']"
  let ?st = "\<lparr>question = [], options = [], correct_answer = []\<rparr>"
  note t = scan_last_wins [of "py ''A''" ?lines ?st "py ''F) 9''"]
  have m: "py ''A'' \<in> {py ''A'', py ''B'', py ''C'', py ''D'', py ''E''}"
    by simp
  have e: "\<exists>line \<in> set ?lines. startswith line (py ''A'' @ py '')'')"
    by (simp add: py_def startswith_def)
  have v: "strip (drop 2 (last (filter (\<lambda>line. startswith line (py ''A'' @ py '')'')) ?lines)))
           = py ''2''"
    by (simp add: py_def startswith_def strip_def isspace_def)
  have f: "\<not> startswith (py ''F) 9'') (py ''Question:'')
   \<and> \<not> startswith (py ''F) 9'') (py ''A)'') \<and> \<not> startswith (py ''F) 9'') (py ''B)'')
   \<and> \<not> startswith (py ''F) 9'') (py ''C)'') \<and> \<not> startswith (py ''F) 9'') (py ''D)'')
   \<and> \<not> startswith (py ''F) 9'') (py ''E)'') \<and> \<not> startswith (py ''F) 9'') (py ''Correct Answer:'')"
    by (simp add: py_def startswith_def)
  from t m e have "\<exists>st'. scan_lines ?st ?lines = Inr st'
          \<and> map_of (options st') (py ''A'')
              = Some (strip (drop 2 (last (filter (\<lambda>line. startswith line (py ''A'' @ py '')''))
                                                 ?lines))))"
    by blast
  then have a: "\<exists>st'. scan_lines ?st ?lines = Inr st'
          \<and> map_of (options st') (py ''A'') = Some (py ''2'')"
    unfolding v .
  from t f have b: "scan_line ?st (py ''F) 9'') = Inr ?st"
    by blast
  have e': "startswith (py ''A) 2'') (py ''A'' @ py '')'')"
    by (simp add: py_def startswith_def)
  from m e' a f b show ?thesis
    by blast
qed

section \<open>Properties of the session\<close>

lemma fold_del_key_fields:
  "started (fold del_key ks s) = (if K_started \<in> set ks then None else started s)"
  "current_question (fold del_key ks s)
     = (if K_current_question \<in> set ks then None else current_question s)"
  "score (fold del_key ks s) = (if K_score \<in> set ks then None else score s)"
  "current_difficulty (fold del_key ks s)
     = (if K_current_difficulty \<in> set ks then None else current_difficulty s)"
  "questions (fold del_key ks s) = (if K_questions \<in> set ks then None else questions s)"
  "current_question_data (fold del_key ks s)
     = (if K_current_question_data \<in> set ks then None else current_question_data s)"
proof (induction ks arbitrary: s)
  case Nil
  {
    case 1 show ?case by simp
  next
    case 2 show ?case by simp
  next
    case 3 show ?case by simp
  next
    case 4 show ?case by simp
  next
    case 5 show ?case by simp
  next
    case 6 show ?case by simp
  }
next
  case (Cons k ks)
  {
    case 1 show ?case by (cases k) (simp_all add: Cons.IH)
  next
    case 2 show ?case by (cases k) (simp_all add: Cons.IH)
  next
    case 3 show ?case by (cases k) (simp_all add: Cons.IH)
  next
    case 4 show ?case by (cases k) (simp_all add: Cons.IH)
  next
    case 5 show ?case by (cases k) (simp_all add: Cons.IH)
  next
    case 6 show ?case by (cases k) (simp_all add: Cons.IH)
  }
qed

lemma restart_test_empty: "restart_test s = empty_session"
  by (rule session_state.equality)
     (simp_all add: restart_test_def fold_del_key_fields keys_def empty_session_def)

lemma init_session_empty:
  "init_session empty_session =
     \<lparr>started = Some False, current_question = Some 0, score = Some 0,
      current_difficulty = Some (py ''medium''), questions = Some [],
      current_question_data = None\<rparr>"
  by (simp add: init_session_def empty_session_def)

lemma init_session_id:
  "started s \<noteq> None \<Longrightarrow> current_question s \<noteq> None \<Longrightarrow> score s \<noteq> None \<Longrightarrow>
   current_difficulty s \<noteq> None \<Longrightarrow> questions s \<noteq> None \<Longrightarrow> init_session s = s"
  by (auto simp: init_session_def Let_def)


lemma init_session_keeps:
  "started s = Some b \<Longrightarrow> started (init_session s) = Some b"
  "current_question s = Some n \<Longrightarrow> current_question (init_session s) = Some n"
  "score s = Some sc \<Longrightarrow> score (init_session s) = Some sc"
  "current_question_data (init_session s) = current_question_data s"
  by (simp_all add: init_session_def Let_def)


lemma scoring_table:
  "dict_get scoring (py ''easy'') = Inr 1"
  "dict_get scoring (py ''medium'') = Inr 2"
  "dict_get scoring (py ''hard'') = Inr 3"
  by (simp_all add: dict_get_def scoring_def py_def)


















text \<open>
  C6: from every session state, the restart leaves no key behind, and the
  initialisation that follows gives the initial state again: question index 0, score 0,
  difficulty medium and no answer records, the same state as in a fresh session;
  pressing Start Test then starts the test from it. When a test is complete (started, the
  question index at \<open>TOTAL_QUESTIONS\<close> or beyond), pressing Restart Test deletes every
  key and asks for a rerun, and the rerun leaves exactly that initial state.
\<close>

theorem restart_reproduces_initial_state:
  "restart_test s = empty_session
   \<and> init_session (restart_test s)
       = \<lparr>started = Some False, current_question = Some 0, score = Some 0,
          current_difficulty = Some (py ''medium''), questions = Some [],
          current_question_data = None\<rparr>
   \<and> init_session (restart_test s) = init_session empty_session
   \<and> script model ua StartTest (restart_test s)
       = Inr (Rerun \<lparr>started = Some True, current_question = Some 0, score = Some 0,
                     current_difficulty = Some (py ''medium''), questions = Some [],
                     current_question_data = None\<rparr>)
   \<and> (started s = Some True \<and> current_question s = Some n \<and> TOTAL_QUESTIONS \<le> n
        \<longrightarrow> script model ua RestartTest s = Inr (Rerun empty_session)
            \<and> app model model' ua RestartTest s
                = Inr \<lparr>started = Some False, current_question = Some 0, score = Some 0,
                       current_difficulty = Some (py ''medium''), questions = Some [],
                       current_question_data = None\<rparr>)"
proof (intro conjI impI)
  show "script model ua StartTest (restart_test s)
       = Inr (Rerun \<lparr>started = Some True, current_question = Some 0, score = Some 0,
                     current_difficulty = Some (py ''medium''), questions = Some [],
                     current_question_data = None\<rparr>)"
    by (simp add: restart_test_empty script_def Let_def attr_def init_session_empty)
next
  assume a: "started s = Some True \<and> current_question s = Some n \<and> TOTAL_QUESTIONS \<le> n"
  then have "started (init_session s) = Some True" "current_question (init_session s) = Some n"
    "\<not> n < TOTAL_QUESTIONS"
    by (simp_all add: init_session_keeps)
  then show r: "script model ua RestartTest s = Inr (Rerun empty_session)"
    by (simp add: script_def Let_def attr_def restart_test_empty)
  have "script model' ua NoClick empty_session
        = Inr (Finished \<lparr>started = Some False, current_question = Some 0, score = Some 0,
                          current_difficulty = Some (py ''medium''), questions = Some [],
                          current_question_data = None\<rparr>)"
    by (simp add: script_def Let_def attr_def init_session_empty)
  with r show "app model model' ua RestartTest s
                = Inr \<lparr>started = Some False, current_question = Some 0, score = Some 0,
                       current_difficulty = Some (py ''medium''), questions = Some [],
                       current_question_data = None\<rparr>"
    by (simp add: app_def)
qed (simp_all add: restart_test_empty init_session_empty)

theorem restart_reproduces_initial_state_witness:
  "TOTAL_QUESTIONS \<le> 10
   \<and> script (\<lambda>prompt. []) (py ''A'') RestartTest
        \<lparr>started = Some True, current_question = Some 10, score = Some 29,
         current_difficulty = Some (py ''hard''), questions = Some [],
         current_question_data = None\<rparr>
       = Inr (Rerun empty_session)
   \<and> app (\<lambda>prompt. []) (\<lambda>prompt. []) (py ''A'') RestartTest
        \<lparr>started = Some True, current_question = Some 10, score = Some 29,
         current_difficulty = Some (py ''hard''), questions = Some [],
         current_question_data = None\<rparr>
       = Inr \<lparr>started = Some False, current_question = Some 0, score = Some 0,
              current_difficulty = Some (py ''medium''), questions = Some [],
              current_question_data = None\<rparr>
   \<and> init_session empty_session
       = \<lparr>started = Some False, current_question = Some 0, score = Some 0,
          current_difficulty = Some (py ''medium''), questions = Some [],
          current_question_data = None\<rparr>"
proof -
  let ?s = "\<lparr>started = Some True, current_question = Some 10, score = Some 29,
         current_difficulty = Some (py ''hard''), questions = Some [],
         current_question_data = None\<rparr>"
  let ?i = "\<lparr>started = Some False, current_question = Some 0, score = Some 0,
          current_difficulty = Some (py ''medium''), questions = Some [],
          current_question_data = None\<rparr>"
  note t = restart_reproduces_initial_state
    [of ?s "\<lambda>prompt. []" "py ''A''" 10 "\<lambda>prompt. []"]
  have h: "started ?s = Some True \<and> current_question ?s = Some 10 \<and> TOTAL_QUESTIONS \<le> 10"
    by (simp add: TOTAL_QUESTIONS_def)
  from t h have c: "script (\<lambda>prompt. []) (py ''A'') RestartTest ?s = Inr (Rerun empty_session)"
    and d: "app (\<lambda>prompt. []) (\<lambda>prompt. []) (py ''A'') RestartTest ?s = Inr ?i"
    by blast+
  from t have a: "restart_test ?s = empty_session"
    and b: "init_session (restart_test ?s) = ?i"
    by blast+
  from b have e: "init_session empty_session = ?i"
    unfolding a .
  from h c d e show ?thesis
    by blast
qed

section \<open>Ten correct answers\<close>

lemma parse_response_returns:
  assumes "map_of candidate (py ''generated_text'') = Some text"
  shows "\<exists>q. parse_response (candidate # others) = Inr q"
proof -
  obtain st where "scan_lines \<lparr>question = [], options = [], correct_answer = []\<rparr>
      (str_split text 10) = Inr st"
    using scan_lines_keys by blast
  then show ?thesis
    by (simp add: parse_response_text [OF assms])
qed

lemma generate_question_returns:
  assumes "responds model"
  shows "\<exists>q. generate_question model d = Inr q"
proof -
  let ?p = "py ''Generate a GMAT-style quantitative problem with a '' @ d @
        py '' difficulty level. '' @
        py ''Provide 5 answer choices labeled A) through E) and indicate the correct answer using 'Correct Answer: [letter]'.''"
  from assms [unfolded responds_def] obtain candidate others t where
    "model ?p = candidate # others" "map_of candidate (py ''generated_text'') = Some t"
    by blast
  with parse_response_returns [of candidate t others] show ?thesis
    by (simp add: generate_question_def)
qed

lemma script_submit_correct:
  assumes "started s = Some True" "current_question s = Some n" "n < 10"
    "score s = Some sc" "current_difficulty s = Some d" "questions s = Some qs"
    "current_question_data s = Some q"
    "dict_get scoring d = Inr p" "adjust_difficulty d True = Inr d'"
  shows "script model (correct_answer q) SubmitAnswer s =
     Inr (Rerun (s\<lparr>score := Some (sc + p),
                    questions :=
                      Some (AList.update (n + 1)
                              \<lparr>Question = question q, Your_Answer = correct_answer q,
                               Correct_Answer = correct_answer q, Difficulty = d,
                               Points_Awarded = p, Result = py ''Correct''\<rparr> qs),
                    current_difficulty := Some d',
                    current_question := Some (n + 1),
                    current_question_data := None\<rparr>))"
proof -
  have i: "init_session s = s"
    using assms by (simp add: init_session_id)
  show ?thesis
    using assms
    by (simp add: script_def i Let_def attr_def TOTAL_QUESTIONS_def test_in_progress_def
        submit_answer_def)
qed

lemma script_rerun_generate:
  assumes "started s = Some True" "current_question s = Some n" "n < 10"
    "score s = Some sc" "current_difficulty s = Some d" "questions s = Some qs"
    "current_question_data s = None" "generate_question model d = Inr q"
  shows "script model ua NoClick s = Inr (Finished (s\<lparr>current_question_data := Some q\<rparr>))"
proof -
  have i: "init_session s = s"
    using assms by (simp add: init_session_id)
  show ?thesis
    using assms
    by (simp add: script_def i Let_def attr_def TOTAL_QUESTIONS_def test_in_progress_def)
qed

lemma script_rerun_done:
  assumes "started s = Some True" "current_question s = Some n" "\<not> n < 10"
    "score s = Some sc" "current_difficulty s = Some d" "questions s = Some qs"
  shows "script model ua NoClick s = Inr (Finished s)"
proof -
  have i: "init_session s = s"
    using assms by (simp add: init_session_id)
  show ?thesis
    using assms
    by (simp add: script_def i Let_def attr_def TOTAL_QUESTIONS_def)
qed


lemma app_submit_correct:
  assumes "started s = Some True" "current_question s = Some n" "n < 10"
    "score s = Some sc" "current_difficulty s = Some d" "questions s = Some qs"
    "current_question_data s = Some q"
    "dict_get scoring d = Inr p" "adjust_difficulty d True = Inr d'"
    "responds model"
  shows "\<exists>s'. app model model (correct_answer q) SubmitAnswer s = Inr s'
     \<and> started s' = Some True \<and> current_question s' = Some (n + 1)
     \<and> score s' = Some (sc + p) \<and> current_difficulty s' = Some d'
     \<and> questions s' =
           Some (AList.update (n + 1)
                   \<lparr>Question = question q, Your_Answer = correct_answer q,
                    Correct_Answer = correct_answer q, Difficulty = d,
                    Points_Awarded = p, Result = py ''Correct''\<rparr> qs)
     \<and> (n + 1 < 10 \<longrightarrow> (\<exists>q'. current_question_data s' = Some q'))"
proof -
  let ?E = "\<lparr>Question = question q, Your_Answer = correct_answer q,
                    Correct_Answer = correct_answer q, Difficulty = d,
                    Points_Awarded = p, Result = py ''Correct''\<rparr>"
  let ?s1 = "s\<lparr>score := Some (sc + p),
               questions := Some (AList.update (n + 1) ?E qs),
               current_difficulty := Some d',
               current_question := Some (n + 1),
               current_question_data := None\<rparr>"
  have 1: "script model (correct_answer q) SubmitAnswer s = Inr (Rerun ?s1)"
    using assms(1-9) by (rule script_submit_correct)
  have f: "started ?s1 = Some True" "current_question ?s1 = Some (n + 1)"
    "score ?s1 = Some (sc + p)" "current_difficulty ?s1 = Some d'"
    "questions ?s1 = Some (AList.update (n + 1) ?E qs)" "current_question_data ?s1 = None"
    using assms(1) by simp_all
  show ?thesis
  proof (cases "n + 1 < 10")
    case True
    obtain q' where q': "generate_question model d' = Inr q'"
      using generate_question_returns [OF assms(10)] by blast
    have "script model (correct_answer q) NoClick ?s1
          = Inr (Finished (?s1\<lparr>current_question_data := Some q'\<rparr>))"
      using f(1,2) True f(3,4,5,6) q' by (rule script_rerun_generate)
    with 1 have "app model model (correct_answer q) SubmitAnswer s
          = Inr (?s1\<lparr>current_question_data := Some q'\<rparr>)"
      by (simp add: app_def)
    then show ?thesis
      using assms(1) by (intro exI [of _ "?s1\<lparr>current_question_data := Some q'\<rparr>"]) simp
  next
    case False
    have "script model (correct_answer q) NoClick ?s1 = Inr (Finished ?s1)"
      using f(1,2) False f(3,4,5) by (rule script_rerun_done)
    with 1 have "app model model (correct_answer q) SubmitAnswer s = Inr ?s1"
      by (simp add: app_def)
    then show ?thesis
      using assms(1) False by (intro exI [of _ ?s1]) simp
  qed
qed


lemma answer_correctly_hard:
  assumes "\<forall>model \<in> set models. responds model"
    and "started s = Some True" "current_question s = Some n"
    and "n + int (length models) = 10"
    and "score s = Some sc" "current_difficulty s = Some (py ''hard'')"
    and "questions s = Some qs"
    and "models \<noteq> [] \<longrightarrow> (\<exists>q. current_question_data s = Some q)"
  shows "\<exists>s' qs'. answer_correctly models s = Inr s'
     \<and> score s' = Some (sc + 3 * int (length models))
     \<and> current_difficulty s' = Some (py ''hard'')
     \<and> current_question s' = Some 10
     \<and> questions s' = Some qs'
     \<and> (\<forall>i. n < i \<and> i \<le> 10 \<longrightarrow>
            (\<exists>e. map_of qs' i = Some e \<and> Difficulty e = py ''hard''
                 \<and> Points_Awarded e = 3 \<and> Result e = py ''Correct''))
     \<and> (\<forall>i. i \<le> n \<longrightarrow> map_of qs' i = map_of qs i)"
  using assms
proof (induction models arbitrary: s n sc qs)
  case Nil
  then show ?case by auto
next
  case (Cons m ms)
  from Cons.prems(4) have n: "n < 10" by simp
  from Cons.prems(8) obtain q where q: "current_question_data s = Some q" by auto
  from Cons.prems(1) have m: "responds m" and ms: "\<forall>model \<in> set ms. responds model"
    by simp_all
  let ?E = "\<lparr>Question = question q, Your_Answer = correct_answer q,
                    Correct_Answer = correct_answer q, Difficulty = py ''hard'',
                    Points_Awarded = 3, Result = py ''Correct''\<rparr>"
  from app_submit_correct [OF Cons.prems(2,3) n Cons.prems(5,6,7) q scoring_table(3)
      adjust_difficulty_table(3) m]
  obtain s1 where s1: "app m m (correct_answer q) SubmitAnswer s = Inr s1"
    "started s1 = Some True" "current_question s1 = Some (n + 1)"
    "score s1 = Some (sc + 3)" "current_difficulty s1 = Some (py ''hard'')"
    "questions s1 = Some (AList.update (n + 1) ?E qs)"
    "n + 1 < 10 \<longrightarrow> (\<exists>q'. current_question_data s1 = Some q')"
    by blast
  from Cons.prems(4) have l: "n + 1 + int (length ms) = 10" by simp
  have d: "ms \<noteq> [] \<longrightarrow> (\<exists>q'. current_question_data s1 = Some q')"
  proof
    assume "ms \<noteq> []"
    then have "0 < int (length ms)" by simp
    with l have "n + 1 < 10" by linarith
    with s1(7) show "\<exists>q'. current_question_data s1 = Some q'" by blast
  qed
  from Cons.IH [OF ms s1(2,3) l s1(4,5,6) d]
  obtain s' qs' where r: "answer_correctly ms s1 = Inr s'"
    "score s' = Some (sc + 3 + 3 * int (length ms))"
    "current_difficulty s' = Some (py ''hard'')"
    "current_question s' = Some 10"
    "questions s' = Some qs'"
    "\<forall>i. n + 1 < i \<and> i \<le> 10 \<longrightarrow>
            (\<exists>e. map_of qs' i = Some e \<and> Difficulty e = py ''hard''
                 \<and> Points_Awarded e = 3 \<and> Result e = py ''Correct'')"
    "\<forall>i. i \<le> n + 1 \<longrightarrow> map_of qs' i = map_of (AList.update (n + 1) ?E qs) i"
    by blast
  have a: "answer_correctly (m # ms) s = Inr s'"
    using q s1(1) r(1) by simp
  have b: "score s' = Some (sc + 3 * int (length (m # ms)))"
    using r(2) by simp
  have c: "\<exists>e. map_of qs' i = Some e \<and> Difficulty e = py ''hard''
                 \<and> Points_Awarded e = 3 \<and> Result e = py ''Correct''"
    if "n < i \<and> i \<le> 10" for i
  proof (cases "i = n + 1")
    case True
    with r(7) have "map_of qs' i = Some ?E"
      by (simp add: AList.update_conv')
    then show ?thesis by simp
  next
    case False
    with that have "n + 1 < i \<and> i \<le> 10" by simp
    with r(6) show ?thesis by blast
  qed
  have e: "map_of qs' i = map_of qs i" if "i \<le> n" for i
    using that r(7) by (simp add: AList.update_conv')
  from a b r(3,4,5) c e show ?case
    by blast
qed


lemma app_start:
  assumes "responds m0"
  shows "\<exists>q. app m0 m0 ua StartTest empty_session =
            Inr \<lparr>started = Some True, current_question = Some 0, score = Some 0,
                 current_difficulty = Some (py ''medium''), questions = Some [],
                 current_question_data = Some q\<rparr>"
proof -
  let ?S0 = "\<lparr>started = Some True, current_question = Some 0, score = Some 0,
                 current_difficulty = Some (py ''medium''), questions = Some [],
                 current_question_data = None\<rparr>"
  have 1: "script m0 ua StartTest empty_session = Inr (Rerun ?S0)"
    by (simp add: script_def Let_def attr_def init_session_empty)
  obtain q where q: "generate_question m0 (py ''medium'') = Inr q"
    using generate_question_returns [OF assms] by blast
  have "script m0 ua NoClick ?S0 = Inr (Finished (?S0\<lparr>current_question_data := Some q\<rparr>))"
    by (rule script_rerun_generate [where n = 0 and sc = 0 and d = "py ''medium''" and qs = "[]"])
       (simp_all add: q)
  with 1 show ?thesis
    by (simp add: app_def)
qed

text \<open>
  C1: a fresh session is initialised to question index 0, score 0 and difficulty medium;
  the user presses Start Test and then answers 10 questions in a row correctly. With a
  pipeline that responds, no run raises, and at the end the score is 29 (2 for the first
  question and 3 for each of the other nine), the difficulty is hard and the question
  index is 10. The record of question 1 has difficulty medium and 2 points, the records
  of questions 2 to 10 have difficulty hard and 3 points: the difficulty is hard from
  question 2 on.
\<close>

theorem ten_correct_answers:
  assumes "responds m0" and "\<forall>model \<in> set models. responds model"
    and "length models = 10"
  shows "\<exists>s1 s' qs.
      app m0 m0 ua StartTest empty_session = Inr s1
      \<and> current_question s1 = Some 0 \<and> score s1 = Some 0
      \<and> current_difficulty s1 = Some (py ''medium'')
      \<and> answer_correctly models s1 = Inr s'
      \<and> score s' = Some 29 \<and> current_difficulty s' = Some (py ''hard'')
      \<and> current_question s' = Some 10
      \<and> questions s' = Some qs
      \<and> (\<exists>e. map_of qs 1 = Some e \<and> Difficulty e = py ''medium''
               \<and> Points_Awarded e = 2 \<and> Result e = py ''Correct'')
      \<and> (\<forall>i. 1 < i \<and> i \<le> 10 \<longrightarrow>
             (\<exists>e. map_of qs i = Some e \<and> Difficulty e = py ''hard''
                  \<and> Points_Awarded e = 3 \<and> Result e = py ''Correct''))"
proof -
  from app_start [OF assms(1)] obtain q1 where
    s1: "app m0 m0 ua StartTest empty_session =
            Inr \<lparr>started = Some True, current_question = Some 0, score = Some 0,
                 current_difficulty = Some (py ''medium''), questions = Some [],
                 current_question_data = Some q1\<rparr>"
    by blast
  let ?s1 = "\<lparr>started = Some True, current_question = Some 0, score = Some 0,
                 current_difficulty = Some (py ''medium''), questions = Some [],
                 current_question_data = Some q1\<rparr>"
  from assms(3) obtain m ms where models: "models = m # ms" and ms: "length ms = 9"
    by (cases models) auto
  from assms(2) models have m: "responds m" and rs: "\<forall>model \<in> set ms. responds model"
    by simp_all
  let ?E = "\<lparr>Question = question q1, Your_Answer = correct_answer q1,
                    Correct_Answer = correct_answer q1, Difficulty = py ''medium'',
                    Points_Awarded = 2, Result = py ''Correct''\<rparr>"
  have "\<exists>s'. app m m (correct_answer q1) SubmitAnswer ?s1 = Inr s'
     \<and> started s' = Some True \<and> current_question s' = Some (0 + 1)
     \<and> score s' = Some (0 + 2) \<and> current_difficulty s' = Some (py ''hard'')
     \<and> questions s' = Some (AList.update (0 + 1) ?E [])
     \<and> (0 + 1 < (10::int) \<longrightarrow> (\<exists>q'. current_question_data s' = Some q'))"
    by (rule app_submit_correct [where d = "py ''medium''"])
       (simp_all add: scoring_table adjust_difficulty_table m)
  then obtain s2 where s2: "app m m (correct_answer q1) SubmitAnswer ?s1 = Inr s2"
    "started s2 = Some True" "current_question s2 = Some 1"
    "score s2 = Some 2" "current_difficulty s2 = Some (py ''hard'')"
    "questions s2 = Some [(1, ?E)]"
    "\<exists>q'. current_question_data s2 = Some q'"
    by auto
  have l: "1 + int (length ms) = 10"
    using ms by simp
  from s2(7) have d: "ms \<noteq> [] \<longrightarrow> (\<exists>q'. current_question_data s2 = Some q')"
    by simp
  from answer_correctly_hard [OF rs s2(2,3) l s2(4,5,6) d]
  obtain s' qs where r: "answer_correctly ms s2 = Inr s'"
    "score s' = Some (2 + 3 * int (length ms))"
    "current_difficulty s' = Some (py ''hard'')"
    "current_question s' = Some 10"
    "questions s' = Some qs"
    "\<forall>i. 1 < i \<and> i \<le> 10 \<longrightarrow>
            (\<exists>e. map_of qs i = Some e \<and> Difficulty e = py ''hard''
                 \<and> Points_Awarded e = 3 \<and> Result e = py ''Correct'')"
    "\<forall>i. i \<le> 1 \<longrightarrow> map_of qs i = map_of [(1, ?E)] i"
    by blast
  have a: "answer_correctly models ?s1 = Inr s'"
    using models s2(1) r(1) by simp
  have b: "score s' = Some 29"
    using r(2) ms by simp
  from r(7) have "map_of qs 1 = Some ?E"
    by simp
  then have c: "\<exists>e. map_of qs 1 = Some e \<and> Difficulty e = py ''medium''
               \<and> Points_Awarded e = 2 \<and> Result e = py ''Correct''"
    by simp
  have f: "current_question ?s1 = Some 0" "score ?s1 = Some 0"
    "current_difficulty ?s1 = Some (py ''medium'')"
    by simp_all
  from s1 f a b r(3,4,5) c r(6) show ?thesis
    by blast
qed

theorem ten_correct_answers_witness:
  "responds (\<lambda>prompt. [[(py ''generated_text'', py ''no question here'')]])
   \<and> length (replicate 10
               (\<lambda>prompt::pystr. [[(py ''generated_text'', py ''no question here'')]])) = 10
   \<and> (\<exists>s1 s'. app (\<lambda>prompt. [[(py ''generated_text'', py ''no question here'')]])
                  (\<lambda>prompt. [[(py ''generated_text'', py ''no question here'')]])
                  (py ''A'') StartTest empty_session = Inr s1
         \<and> answer_correctly
              (replicate 10 (\<lambda>prompt. [[(py ''generated_text'', py ''no question here'')]])) s1
             = Inr s'
         \<and> score s' = Some 29 \<and> current_difficulty s' = Some (py ''hard'')
         \<and> current_question s' = Some 10)"
proof -
  define M :: "pystr \<Rightarrow> response"
    where "M = (\<lambda>prompt. [[(py ''generated_text'', py ''no question here'')]])"
  define Ms where "Ms = replicate 10 M"
  have r: "responds M"
    by (simp add: responds_def M_def)
  have a: "\<forall>model \<in> set Ms. responds model"
    using r by (simp add: Ms_def)
  have l: "length Ms = 10"
    by (simp add: Ms_def)
  from ten_correct_answers [OF r a l, of "py ''A''"]
  have "\<exists>s1 s'. app M M (py ''A'') StartTest empty_session = Inr s1
         \<and> answer_correctly Ms s1 = Inr s'
         \<and> score s' = Some 29 \<and> current_difficulty s' = Some (py ''hard'')
         \<and> current_question s' = Some 10"
    by blast
  with r l have "responds M \<and> length Ms = 10
    \<and> (\<exists>s1 s'. app M M (py ''A'') StartTest empty_session = Inr s1
         \<and> answer_correctly Ms s1 = Inr s'
         \<and> score s' = Some 29 \<and> current_difficulty s' = Some (py ''hard'')
         \<and> current_question s' = Some 10)"
    by (intro conjI)
  then show ?thesis
    unfolding Ms_def M_def .
qed

section \<open>The marker inside the prompt\<close>

lemma replace_ne_absent:
  "\<forall>i. take (length old) (drop i s) \<noteq> old \<Longrightarrow> replace_ne old new s = s"
proof (induction s)
  case Nil
  then show ?case by simp
next
  case (Cons c cs)
  from Cons.prems have "take (length old) (drop 0 (c # cs)) \<noteq> old"
    by blast
  moreover have "\<forall>i. take (length old) (drop i cs) \<noteq> old"
  proof
    fix i
    from Cons.prems have "take (length old) (drop (Suc i) (c # cs)) \<noteq> old"
      by blast
    then show "take (length old) (drop i cs) \<noteq> old" by simp
  qed
  ultimately show ?case
    using Cons.IH by simp
qed

lemma replace_ne_prefix:
  "old \<noteq> [] \<Longrightarrow> take (length old) s = old \<Longrightarrow>
   replace_ne old new s = new @ replace_ne old new (drop (length old) s)"
  by (cases s) auto

text \<open>
  Where the rest of a \<open>Question:\<close> line holds no further occurrence of the marker, the
  prompt is the text after the marker, trimmed.
\<close>

lemma question_line_plain:
  assumes "startswith line (py ''Question:'')"
    and "\<forall>i. take 9 (drop i (drop 9 line)) \<noteq> py ''Question:''"
  shows "scan_line st line = Inr (st\<lparr>question := strip (drop 9 line)\<rparr>)"
proof -
  have len: "length (py ''Question:'') = 9" and ne: "py ''Question:'' \<noteq> []"
    by (simp_all add: py_def)
  from assms(1) have t: "take (length (py ''Question:'')) line = py ''Question:''"
    by (simp add: startswith_def)
  have "replace_ne (py ''Question:'') [] line
        = replace_ne (py ''Question:'') [] (drop 9 line)"
    using replace_ne_prefix [OF ne t, of "[]"] by (simp add: len)
  also have "\<dots> = drop 9 line"
    using assms(2) by (intro replace_ne_absent) (simp add: len)
  finally have "str_replace line (py ''Question:'') [] = drop 9 line"
    by (simp add: str_replace_def ne)
  with assms(1) show ?thesis
    by (simp add: scan_line_def)
qed

lemma split_from_no_sep: "sep \<notin> set xs \<Longrightarrow> split_from sep cur xs = [rev cur @ xs]"
  by (induction xs arbitrary: cur) auto

lemma split_from_line:
  "sep \<notin> set xs \<Longrightarrow>
   split_from sep cur (xs @ sep # rest) = (rev cur @ xs) # split_from sep [] rest"
  by (induction xs arbitrary: cur) auto

lemma scan_line_correct_C:
  "scan_line st (py ''Correct Answer: C'') = Inr (st\<lparr>correct_answer := py ''C''\<rparr>)"
  by (simp add: ev)

lemma well_formed_lines_scan:
  assumes "startswith ql (py ''Question:'')"
    and "startswith al (py ''A)'')" and "startswith bl (py ''B)'')"
    and "startswith cl (py ''C)'')" and "startswith dl (py ''D)'')"
    and "startswith el (py ''E)'')"
  shows "scan_lines \<lparr>question = [], options = [], correct_answer = []\<rparr>
           [ql, al, bl, cl, dl, el, py ''Correct Answer: C'']
     = Inr \<lparr>question = strip (str_replace ql (py ''Question:'') []),
            options = [(py ''A'', strip (drop 2 al)), (py ''B'', strip (drop 2 bl)),
                       (py ''C'', strip (drop 2 cl)), (py ''D'', strip (drop 2 dl)),
                       (py ''E'', strip (drop 2 el))],
            correct_answer = py ''C''\<rparr>"
proof -
  have q: "scan_line st ql
           = Inr (st\<lparr>question := strip (str_replace ql (py ''Question:'') [])\<rparr>)" for st
    using assms(1) by (simp add: scan_line_def)
  have a: "scan_line st al
           = Inr (st\<lparr>options := AList.update (py ''A'') (strip (drop 2 al)) (options st)\<rparr>)" for st
    using assms(2) by (intro scan_line_option) (simp_all add: py_def)
  have b: "scan_line st bl
           = Inr (st\<lparr>options := AList.update (py ''B'') (strip (drop 2 bl)) (options st)\<rparr>)" for st
    using assms(3) by (intro scan_line_option) (simp_all add: py_def)
  have c: "scan_line st cl
           = Inr (st\<lparr>options := AList.update (py ''C'') (strip (drop 2 cl)) (options st)\<rparr>)" for st
    using assms(4) by (intro scan_line_option) (simp_all add: py_def)
  have d: "scan_line st dl
           = Inr (st\<lparr>options := AList.update (py ''D'') (strip (drop 2 dl)) (options st)\<rparr>)" for st
    using assms(5) by (intro scan_line_option) (simp_all add: py_def)
  have e: "scan_line st el
           = Inr (st\<lparr>options := AList.update (py ''E'') (strip (drop 2 el)) (options st)\<rparr>)" for st
    using assms(6) by (intro scan_line_option) (simp_all add: py_def)
  show ?thesis
    by (simp add: q a b c d e scan_line_correct_C markers)
qed

text \<open>
  On a text made of a \<open>Question:\<close> line, one line for each of \<open>A)\<close> to \<open>E)\<close> and the line
  \<open>Correct Answer: C\<close>, the parser returns the correct letter C and the five trimmed
  option texts, unless nothing is left of the \<open>Question:\<close> line once every occurrence
  of the marker is removed and the rest trimmed: then it returns the fallback question.
\<close>

lemma well_formed_text_parse:
  assumes "map_of candidate (py ''generated_text'')
           = Some (ql @ [10] @ al @ [10] @ bl @ [10] @ cl @ [10] @ dl @ [10] @ el @ [10]
                   @ py ''Correct Answer: C'')"
    and "10 \<notin> set ql" "10 \<notin> set al" "10 \<notin> set bl" "10 \<notin> set cl" "10 \<notin> set dl"
      "10 \<notin> set el"
    and "startswith ql (py ''Question:'')"
    and "startswith al (py ''A)'')" and "startswith bl (py ''B)'')"
    and "startswith cl (py ''C)'')" and "startswith dl (py ''D)'')"
    and "startswith el (py ''E)'')"
  shows "parse_response (candidate # others)
     = Inr (if strip (str_replace ql (py ''Question:'') []) = [] then fallback
            else \<lparr>question = strip (str_replace ql (py ''Question:'') []),
                  options = [(py ''A'', strip (drop 2 al)), (py ''B'', strip (drop 2 bl)),
                             (py ''C'', strip (drop 2 cl)), (py ''D'', strip (drop 2 dl)),
                             (py ''E'', strip (drop 2 el))],
                  correct_answer = py ''C''\<rparr>)"
proof -
  have n: "10 \<notin> set (py ''Correct Answer: C'')"
    by (simp add: py_def)
  have "str_split (ql @ [10] @ al @ [10] @ bl @ [10] @ cl @ [10] @ dl @ [10] @ el @ [10]
                   @ py ''Correct Answer: C'') 10
        = [ql, al, bl, cl, dl, el, py ''Correct Answer: C'']"
    using assms(2-7) n by (simp add: str_split_def split_from_line split_from_no_sep)
  then show ?thesis
    using well_formed_lines_scan [OF assms(8-13)]
    by (simp add: parse_response_text [OF assms(1)] markers)
qed

text \<open>
  C9, at the line \<open>Question: Is Question: a marker?\<close>: the line begins with the marker,
  the characters after the marker, trimmed, are \<open>Is Question: a marker?\<close>, but the scan
  sets the prompt to \<open>Is  a marker?\<close>, because \<open>replace\<close> removes the second occurrence
  of the marker too; a text with this line and well-formed options is parsed into a
  question with that prompt.
\<close>

theorem question_marker_removed_inside:
  "scan_line \<lparr>question = [], options = [], correct_answer = []\<rparr>
      (py ''Question: Is Question: a marker?'')
     = Inr \<lparr>question = py ''Is  a marker?'', options = [], correct_answer = []\<rparr>
   \<and> strip (drop 9 (py ''Question: Is Question: a marker?'')) = py ''Is Question: a marker?''
   \<and> py ''Is  a marker?'' \<noteq> py ''Is Question: a marker?''
   \<and> parse_response [[(py ''generated_text'',
          py ''Question: Is Question: a marker?'' @ [10] @ py ''A) 1'' @ [10] @ py ''B) 2''
            @ [10] @ py ''C) 3'' @ [10] @ py ''D) 4'' @ [10] @ py ''E) 5'' @ [10]
            @ py ''Correct Answer: B'')]]
     = Inr \<lparr>question = py ''Is  a marker?'',
            options = [(py ''A'', py ''1''), (py ''B'', py ''2''), (py ''C'', py ''3''),
                       (py ''D'', py ''4''), (py ''E'', py ''5'')],
            correct_answer = py ''B''\<rparr>"
  by (simp add: ev)

text \<open>
  C4, at the text with the lines \<open>Question: Question:\<close>, \<open>A) 1\<close>, \<open>B) 2\<close>, \<open>C) 3\<close>,
  \<open>D) 4\<close>, \<open>E) 5\<close> and \<open>Correct Answer: C\<close>: the \<open>Question:\<close> line has the non-empty
  trimmed content \<open>Question:\<close> after its marker, yet the parser returns the fallback
  question, whose correct letter is B and whose options are 3, 4, 5, 6, 7.
\<close>

theorem well_formed_text_falls_back:
  "parse_response [[(py ''generated_text'',
          py ''Question: Question:'' @ [10] @ py ''A) 1'' @ [10] @ py ''B) 2''
            @ [10] @ py ''C) 3'' @ [10] @ py ''D) 4'' @ [10] @ py ''E) 5'' @ [10]
            @ py ''Correct Answer: C'')]]
     = Inr fallback
   \<and> strip (drop 9 (py ''Question: Question:'')) = py ''Question:''
   \<and> correct_answer fallback = py ''B''
   \<and> py ''B'' \<noteq> py ''C''
   \<and> options fallback = [(py ''A'', py ''3''), (py ''B'', py ''4''), (py ''C'', py ''5''),
                          (py ''D'', py ''6''), (py ''E'', py ''7'')]"
  by (simp add: ev fallback_def)

end
